theory Spec2Isabelle
  imports Main
begin

section \<open>JavaScript values and string primitives\<close>

text \<open>
  A JavaScript string is a sequence of code units. The plugin only ever compares code units with
  ASCII characters, so a string is modelled as a \<open>char list\<close> whose elements are the code
  units (0..255). Positions are JavaScript numbers holding integers, also negative ones
  (\<open>pos -= 1\<close> may reach \<open>-1\<close>), hence \<open>int\<close>.

  A number read from an array or produced by \<open>charCodeAt\<close> may be \<open>undefined\<close> or
  \<open>NaN\<close>; both are written out.
\<close>

datatype jsnum = JUndef | JNaN | JNum int

text \<open>\<open>a + b\<close> on numbers: \<open>undefined\<close> converts to \<open>NaN\<close>, which is absorbing.\<close>

fun js_add :: "jsnum \<Rightarrow> jsnum \<Rightarrow> jsnum" where
  "js_add (JNum a) (JNum b) = JNum (a + b)"
| "js_add _ _ = JNaN"

text \<open>Relational operators: every comparison with \<open>NaN\<close> (or \<open>undefined\<close>) is false.\<close>

fun js_lt :: "jsnum \<Rightarrow> jsnum \<Rightarrow> bool" where
  "js_lt (JNum a) (JNum b) = (a < b)"
| "js_lt _ _ = False"

fun js_le :: "jsnum \<Rightarrow> jsnum \<Rightarrow> bool" where
  "js_le (JNum a) (JNum b) = (a \<le> b)"
| "js_le _ _ = False"

definition js_gt :: "jsnum \<Rightarrow> jsnum \<Rightarrow> bool" where
  "js_gt a b = js_lt b a"

definition js_ge :: "jsnum \<Rightarrow> jsnum \<Rightarrow> bool" where
  "js_ge a b = js_le b a"

text \<open>\<open>a % b\<close> on integers: the sign follows the dividend.\<close>

definition js_rem :: "int \<Rightarrow> int \<Rightarrow> int" where
  "js_rem a b = sgn a * (\<bar>a\<bar> mod \<bar>b\<bar>)"

text \<open>\<open>s[i]\<close>: \<open>undefined\<close> (here \<open>None\<close>) outside the string.\<close>

definition str_at :: "string \<Rightarrow> int \<Rightarrow> char option" where
  "str_at s i = (if 0 \<le> i \<and> i < int (length s) then Some (s ! nat i) else None)"

text \<open>\<open>s.charCodeAt(i)\<close>: \<open>NaN\<close> outside the string.\<close>

definition charCodeAt :: "string \<Rightarrow> int \<Rightarrow> jsnum" where
  "charCodeAt s i = (if 0 \<le> i \<and> i < int (length s) then JNum (of_char (s ! nat i)) else JNaN)"

text \<open>
  \<open>s.slice(a, b)\<close> on integers: a negative index counts from the end, both ends are clamped
  to the string.
\<close>

definition rel_index :: "int \<Rightarrow> int \<Rightarrow> int" where
  "rel_index k len = (if k < 0 then max (len + k) 0 else min k len)"

definition js_slice :: "string \<Rightarrow> int \<Rightarrow> int \<Rightarrow> string" where
  "js_slice s a b =
     (let len = int (length s); from = rel_index a len; to = rel_index b len
      in take (nat (to - from)) (drop (nat from) s))"

text \<open>
  \<open>s.slice(a, b)\<close> on numbers: \<open>NaN\<close> and an \<open>undefined\<close> start count as 0, an
  \<open>undefined\<close> end as the length.
\<close>

fun to_integer :: "jsnum \<Rightarrow> int" where
  "to_integer (JNum k) = k"
| "to_integer _ = 0"

definition slice_num :: "string \<Rightarrow> jsnum \<Rightarrow> jsnum \<Rightarrow> string" where
  "slice_num s a b =
     js_slice s (to_integer a) (case b of JUndef \<Rightarrow> int (length s) | _ \<Rightarrow> to_integer b)"

text \<open>\<open>s.slice(a)\<close>: to the end of the string.\<close>

definition slice_from :: "string \<Rightarrow> int \<Rightarrow> string" where
  "slice_from s a = js_slice s a (int (length s))"

text \<open>\<open>s.indexOf(c, from)\<close> for a one-character needle: \<open>from\<close> is clamped to the string.\<close>

fun first_index :: "char \<Rightarrow> string \<Rightarrow> nat option" where
  "first_index c [] = None"
| "first_index c (x # xs) = (if x = c then Some 0 else map_option Suc (first_index c xs))"

definition js_indexOf :: "string \<Rightarrow> char \<Rightarrow> int \<Rightarrow> int" where
  "js_indexOf s c from =
     (let k = nat (max 0 (min from (int (length s))))
      in case first_index c (drop k s) of None \<Rightarrow> - 1 | Some i \<Rightarrow> int (k + i))"

text \<open>\<open>s.lastIndexOf(p)\<close>: the last position where \<open>p\<close> starts, or \<open>-1\<close>.\<close>

fun last_index_upto :: "string \<Rightarrow> string \<Rightarrow> nat \<Rightarrow> int" where
  "last_index_upto s p 0 = (if take (length p) s = p then 0 else - 1)"
| "last_index_upto s p (Suc i) =
     (if take (length p) (drop (Suc i) s) = p then int (Suc i) else last_index_upto s p i)"

definition js_lastIndexOf :: "string \<Rightarrow> string \<Rightarrow> int" where
  "js_lastIndexOf s p =
     (if length s < length p then - 1 else last_index_upto s p (length s - length p))"

text \<open>
  \<open>s.trim()\<close> removes white space and line terminators at both ends; among the code units
  0..255 these are tab, LF, VT, FF, CR, space and the no-break space.
\<close>

definition is_js_space :: "char \<Rightarrow> bool" where
  "is_js_space c = ((of_char c :: nat) \<in> {0x09, 0x0A, 0x0B, 0x0C, 0x0D, 0x20, 0xA0})"

definition js_trim :: "string \<Rightarrow> string" where
  "js_trim s = rev (dropWhile is_js_space (rev (dropWhile is_js_space s)))"

section \<open>The host's parser states and tokens\<close>

text \<open>
  A token as the host's \<open>state.push(type, tag, nesting)\<close> creates it and as the rules then
  fill it in: \<open>map\<close> is \<open>null\<close> until set.
\<close>

record token =
  ttype :: string
  tag :: string
  nesting :: int
  markup :: string
  content :: string
  block :: bool
  tmap :: "(nat \<times> nat) option"

definition new_token :: "string \<Rightarrow> string \<Rightarrow> int \<Rightarrow> token" where
  "new_token ty tg n =
     \<lparr>ttype = ty, tag = tg, nesting = n, markup = [], content = [], block = False, tmap = None\<rparr>"

record state_core =
  src :: string
  tokens :: "token list"

text \<open>The inline state: the scan cursor \<open>pos\<close>, the scan limit \<open>posMax\<close>, the pending text.\<close>

record inline_state = state_core +
  pos :: int
  posMax :: int
  pending :: string

text \<open>
  The block state: the per-line tables (begin offset, end offset, indent of the first
  non-space character), the required indent of the enclosing block, the current line.
\<close>

record block_state = state_core +
  bMarks :: "int list"
  eMarks :: "int list"
  tShift :: "int list"
  blkIndent :: int
  line :: nat

text \<open>\<open>xs[i]\<close> on an array of numbers: \<open>undefined\<close> outside the array.\<close>

definition arr_get :: "int list \<Rightarrow> nat \<Rightarrow> jsnum" where
  "arr_get xs i = (if i < length xs then JNum (xs ! i) else JUndef)"

section \<open>The delimiter classifier\<close>

record delim_result =
  can_open :: bool
  can_close :: bool

definition isValidDelimiter :: "'a inline_state_scheme \<Rightarrow> int \<Rightarrow> delim_result" where
  "isValidDelimiter state p =
     (let max = posMax state;
          prevChar = (if p > 0 then charCodeAt (src state) (p - 1) else JNum (- 1));
          nextChar = (if p + 1 \<le> max then charCodeAt (src state) (p + 1) else JNum (- 1));
          can_close = (if prevChar = JNum 0x20 \<or> prevChar = JNum 0x09 \<or>
                          (js_ge nextChar (JNum 0x30) \<and> js_le nextChar (JNum 0x39))
                       then False else True);
          can_open = (if nextChar = JNum 0x20 \<or> nextChar = JNum 0x09 then False else True)
      in \<lparr>can_open = can_open, can_close = can_close\<rparr>)"

section \<open>The inline scanner\<close>

text \<open>
  The inner loop \<open>while (state.src[pos] === "\\") { pos -= 1; }\<close>: it stops at the
  first position that holds no backslash, which is also any position outside the string.
\<close>

function skip_backslashes :: "string \<Rightarrow> int \<Rightarrow> int" where
  "skip_backslashes s p =
     (if str_at s p = Some (CHR 0x5C) then skip_backslashes s (p - 1) else p)"
  by pat_completeness auto
termination
  by (relation "measure (\<lambda>(s, p). nat (p + 1))") (auto simp: str_at_def split: if_splits)

declare skip_backslashes.simps [simp del]

lemma first_index_Some:
  "first_index c xs = Some i \<Longrightarrow> i < length xs \<and> xs ! i = c \<and> (\<forall>j<i. xs ! j \<noteq> c)"
proof (induction xs arbitrary: i)
  case Nil
  then show ?case by simp
next
  case (Cons x xs)
  show ?case
  proof (cases "x = c")
    case True
    with Cons.prems show ?thesis by simp
  next
    case False
    with Cons.prems obtain k where k: "first_index c xs = Some k" "i = Suc k"
      by auto
    from Cons.IH [OF k(1)] False k(2) show ?thesis
      by (auto simp: nth_Cons split: nat.splits)
  qed
qed

lemma first_index_None: "first_index c xs = None \<Longrightarrow> c \<notin> set xs"
  by (induction xs) (auto split: if_splits)

lemma js_indexOf_found:
  assumes "js_indexOf s c from \<noteq> - 1"
  shows "from \<le> js_indexOf s c from \<and> 0 \<le> js_indexOf s c from
         \<and> js_indexOf s c from < int (length s)"
proof -
  define k where "k = nat (max 0 (min from (int (length s))))"
  from assms obtain i where i: "first_index c (drop k s) = Some i" "js_indexOf s c from = int (k + i)"
    by (auto simp: js_indexOf_def k_def Let_def split: option.splits)
  from first_index_Some [OF i(1)] have "i < length s - k"
    by simp
  then have "k + i < length s" "from \<le> int k"
    by (auto simp: k_def)
  with i(2) show ?thesis
    by simp
qed

text \<open>
  The outer loop
  \<open>while ((match = state.src.indexOf("$", match)) !== -1) { ... }\<close>;
  the result is the value of \<open>match\<close> when the loop is left: \<open>-1\<close>, or the position at
  which it broke out.
\<close>

function find_close :: "string \<Rightarrow> int \<Rightarrow> int" where
  "find_close s match =
     (let m = js_indexOf s (CHR ''$'') match
      in if m = - 1 then - 1
         else let p = skip_backslashes s (m - 1)
              in if js_rem (m - p) 2 = 1 then m else find_close s (m + 1))"
  by pat_completeness auto
termination
proof (relation "measure (\<lambda>(s, match). nat (int (length s) - match))", goal_cases)
  case 1
  show ?case by simp
next
  case (2 s match m p)
  with js_indexOf_found [of s "CHR ''$''" match] show ?case
    by simp
qed

declare find_close.simps [simp del]

text \<open>\<open>if (!silent) { state.pending += txt; }\<close>\<close>

definition add_pending :: "bool \<Rightarrow> string \<Rightarrow> inline_state \<Rightarrow> inline_state" where
  "add_pending silent txt state =
     (if \<not> silent then state\<lparr>pending := pending state @ txt\<rparr> else state)"

text \<open>
  Modelled from the spec: the host's token-emission primitive \<open>state.push\<close> is not part of
  this repository; it records the new token at the end of the state's token list.
  \<open>emit_inline\<close> is the block
  \<open>token = state.push('math_inline', 'math', 0); token.markup = "$"; token.content = ...\<close>.
\<close>

definition push :: "token \<Rightarrow> 'a state_core_scheme \<Rightarrow> 'a state_core_scheme" where
  "push t state = state\<lparr>tokens := tokens state @ [t]\<rparr>"

definition emit_inline :: "bool \<Rightarrow> string \<Rightarrow> inline_state \<Rightarrow> inline_state" where
  "emit_inline silent txt state =
     (if \<not> silent
      then push ((new_token ''math_inline'' ''math'' 0)\<lparr>markup := ''$'', content := txt\<rparr>) state
      else state)"

definition math_inline :: "inline_state \<Rightarrow> bool \<Rightarrow> bool \<times> inline_state" where
  "math_inline state silent =
     (if str_at (src state) (pos state) \<noteq> Some (CHR ''$'') then (False, state)
      else if \<not> can_open (isValidDelimiter state (pos state))
        then (True, (add_pending silent ''$'' state)\<lparr>pos := pos state + 1\<rparr>)
      else
        let start = pos state + 1;
            match = find_close (src state) start
        in if match = - 1
             then (True, (add_pending silent ''$'' state)\<lparr>pos := start\<rparr>)
           else if match - start = 0
             then (True, (add_pending silent ''$$'' state)\<lparr>pos := start + 1\<rparr>)
           else if \<not> can_close (isValidDelimiter state match)
             then (True, (add_pending silent ''$'' state)\<lparr>pos := start\<rparr>)
           else (True, (emit_inline silent (js_slice (src state) start match) state)
                         \<lparr>pos := match + 1\<rparr>))"

section \<open>The block scanner\<close>

text \<open>
  The host's \<open>state.getLines(begin, end, indent, keepLastLF)\<close> is not part of this
  repository. It is a parameter of the scanner, applied to the state as it is when the scanner
  calls it.
\<close>

type_synonym get_lines = "block_state \<Rightarrow> nat \<Rightarrow> nat \<Rightarrow> jsnum \<Rightarrow> bool \<Rightarrow> string"

text \<open>
  The loop \<open>for (next = start; !found;) { next++; ... }\<close> over the lines after the
  opening one. The result is the value of \<open>next\<close> when the loop is left and the value of
  \<open>lastLine\<close>, which is set exactly when the loop is left with \<open>found = true\<close>.
\<close>

function scan_lines :: "block_state \<Rightarrow> nat \<Rightarrow> nat \<Rightarrow> nat \<times> string option" where
  "scan_lines state end next =
     (let next' = next + 1
      in if next' \<ge> end then (next', None)
         else
           let p = js_add (arr_get (bMarks state) next') (arr_get (tShift state) next');
               max = arr_get (eMarks state) next'
           in if js_lt p max \<and> js_lt (arr_get (tShift state) next') (JNum (blkIndent state))
                then (next', None)
              else if slice_from (js_trim (slice_num (src state) p max)) (- 2) = ''$$''
                then
                  let lastPos = js_lastIndexOf (slice_num (src state) (JNum 0) max) ''$$'';
                      lastLine = slice_num (src state) p (JNum lastPos)
                  in (next', Some lastLine)
              else scan_lines state end next')"
  by pat_completeness auto
termination
  by (relation "measure (\<lambda>(state, end, next). end - next)") auto

declare scan_lines.simps [simp del]

text \<open>
  A JavaScript string is truthy when it is not empty, \<open>undefined\<close> is falsy:
  \<open>(l && l.trim() ? a : b)\<close>.
\<close>

definition non_blank :: "string \<Rightarrow> bool" where
  "non_blank l = (l \<noteq> [] \<and> js_trim l \<noteq> [])"

definition math_block :: "get_lines \<Rightarrow> block_state \<Rightarrow> nat \<Rightarrow> nat \<Rightarrow> bool \<Rightarrow> bool \<times> block_state" where
  "math_block getLines state start end silent =
     (let p = js_add (arr_get (bMarks state) start) (arr_get (tShift state) start);
          max = arr_get (eMarks state) start
      in if js_gt (js_add p (JNum 2)) max then (False, state)
         else if slice_num (src state) p (js_add p (JNum 2)) \<noteq> ''$$'' then (False, state)
         else
           let p = js_add p (JNum 2);
               firstLine = slice_num (src state) p max
           in if silent then (True, state)
              else
                let single = (slice_from (js_trim firstLine) (- 2) = ''$$'');
                    firstLine = (if single then js_slice (js_trim firstLine) 0 (- 2) else firstLine);
                    (next, lastLine) = (if single then (start, None) else scan_lines state end start);
                    state = state\<lparr>line := next + 1\<rparr>;
                    token = (new_token ''math_block'' ''math'' 0)\<lparr>block := True\<rparr>;
                    text = (if non_blank firstLine then firstLine @ [CHR 0x0A] else [])
                           @ getLines (push token state) (start + 1) next
                               (arr_get (tShift state) start) True
                           @ (case lastLine of None \<Rightarrow> []
                              | Some l \<Rightarrow> if non_blank l then l else []);
                    token = token\<lparr>content := text\<rparr>;
                    token = token\<lparr>tmap := Some (start, line state)\<rparr>;
                    token = token\<lparr>markup := ''$$''\<rparr>
                in (True, push token state))"

section \<open>The render adapter\<close>

text \<open>
  The plugin's options. Every field may be absent; \<open>throwOnError\<close> is a flag or a
  predicate on the environment; \<open>otherOptions\<close> stands for the macros and whatever else is
  passed through to the typesetting engine.

  A property of a JavaScript object is absent, present with the value \<open>undefined\<close>, or
  present with a value. Reading the property gives \<open>undefined\<close> in the first two cases, so
  \<open>throwOnError\<close> and \<open>errorColor\<close>, which the plugin only reads, need no more than
  \<open>Unset\<close> and \<open>None\<close>. \<open>Object.assign\<close> tells the two apart, and the plugin
  applies it to \<open>blockWrapper\<close>: that field keeps all three cases.
\<close>

datatype 'a property = Absent | Undefined | Defined 'a

datatype 'e throw_option = Unset | Flag bool | Pred "'e \<Rightarrow> bool"

record ('e, 'x) options =
  blockWrapper :: "string property"
  throwOnError :: "'e throw_option"
  errorColor :: "string option"
  otherOptions :: 'x

text \<open>
  The error the engine raises: its description (\<open>error.toString()\<close>) and its
  \<open>diagnostics\<close> object.
\<close>

record engine_error =
  description :: string
  diagnostics :: "string \<rightharpoonup> string"

text \<open>
  What a render function throws: the engine's error, a \<open>TypeError\<close> of the language
  (a method called on \<open>undefined\<close>), or the legacy variant's error object
  \<open>{ message, source, error }\<close>.
\<close>

datatype js_exn =
  EngineError engine_error
| TypeError
| LegacyError string string engine_error

text \<open>
  The external typesetting engine \<open>katex.renderToString(expression, options)\<close>: a
  parameter. It receives the expression, the options object and, separately here, that
  object's \<open>displayMode\<close>.
\<close>

type_synonym ('e, 'x) engine = "string \<Rightarrow> ('e, 'x) options \<Rightarrow> bool \<Rightarrow> engine_error + string"

text \<open>\<open>s.replace(/c/g, r)\<close> for a one-character pattern.\<close>

definition replace_all :: "char \<Rightarrow> string \<Rightarrow> string \<Rightarrow> string" where
  "replace_all c r s = concat (map (\<lambda>x. if x = c then r else [x]) s)"

text \<open>\<open>escapeHtml\<close>; calling \<open>replace\<close> on \<open>undefined\<close> throws.\<close>

definition escapeHtml :: "string option \<Rightarrow> js_exn + string" where
  "escapeHtml unsafe =
     (case unsafe of
        None \<Rightarrow> Inl TypeError
      | Some u \<Rightarrow>
          Inr (replace_all (CHR 0x27) ''&#039;''
                (replace_all (CHR 0x22) ''&quot;''
                  (replace_all (CHR ''>'') ''&gt;''
                    (replace_all (CHR ''<'') ''&lt;''
                      (replace_all (CHR ''&'') ''&amp;'' u))))))"

text \<open>
  \<open>options = Object.assign({ blockWrapper: 'div' }, options)\<close>: every property the
  caller's options have is copied over the default, also one whose value is
  \<open>undefined\<close>; the default stands only where the caller's options have no
  \<open>blockWrapper\<close> at all.
\<close>

definition with_defaults :: "('e, 'x) options \<Rightarrow> ('e, 'x) options" where
  "with_defaults opts =
     opts\<lparr>blockWrapper :=
            (case blockWrapper opts of
               Absent \<Rightarrow> Defined ''div''
             | Undefined \<Rightarrow> Undefined
             | Defined w \<Rightarrow> Defined w)\<rparr>"

text \<open>
  \<open>typeof options.throwOnError === 'function' ? options.throwOnError(env) : !!options.throwOnError\<close>
\<close>

definition resolve_throw :: "('e, 'x) options \<Rightarrow> 'e \<Rightarrow> bool" where
  "resolve_throw opts env =
     (case throwOnError opts of Pred f \<Rightarrow> f env | Flag b \<Rightarrow> b | Unset \<Rightarrow> False)"

text \<open>A value interpolated into a template literal: \<open>undefined\<close> reads "undefined".\<close>

definition interpolate :: "string property \<Rightarrow> string" where
  "interpolate v =
     (case v of Absent \<Rightarrow> ''undefined'' | Undefined \<Rightarrow> ''undefined'' | Defined s \<Rightarrow> s)"

text \<open>\<open>tokens[idx].content\<close>: reading a property of \<open>undefined\<close> throws.\<close>

definition token_content :: "token list \<Rightarrow> nat \<Rightarrow> js_exn + string" where
  "token_content toks idx = (if idx < length toks then Inr (content (toks ! idx)) else Inl TypeError)"

text \<open>
  \<open>error.diagnostics = Object.assign({}, error.diagnostics, { source: maths }); throw error;\<close>
\<close>

definition with_source :: "engine_error \<Rightarrow> string \<Rightarrow> engine_error" where
  "with_source err maths = err\<lparr>diagnostics := (diagnostics err)(''source'' \<mapsto> maths)\<rparr>"

text \<open>
  The two render functions, closed over the engine and over the options as the plugin
  holds them. The arguments of a template literal are evaluated from left to right.
\<close>

definition renderInline ::
  "('e, 'x) engine \<Rightarrow> ('e, 'x) options \<Rightarrow> token list \<Rightarrow> nat \<Rightarrow> 'e \<Rightarrow> js_exn + string" where
  "renderInline engine opts toks idx env =
     (case token_content toks idx of
        Inl e \<Rightarrow> Inl e
      | Inr maths \<Rightarrow>
          let throw = resolve_throw opts env
          in case engine maths (opts\<lparr>throwOnError := Flag throw\<rparr>) False of
               Inr rendered \<Rightarrow> Inr (rendered @ [CHR 0x0A])
             | Inl err \<Rightarrow>
                 if throw then Inl (EngineError (with_source err maths))
                 else
                   (case escapeHtml (errorColor opts) of
                      Inl e \<Rightarrow> Inl e
                    | Inr colour \<Rightarrow>
                        (case escapeHtml (Some (description err)) of
                           Inl e \<Rightarrow> Inl e
                         | Inr title \<Rightarrow>
                             (case escapeHtml (Some maths) of
                                Inl e \<Rightarrow> Inl e
                              | Inr body \<Rightarrow>
                                  Inr (''<span class=\"katex-error\" style=\"color:'' @ colour
                                       @ ''\" title=\"'' @ title @ ''\">'' @ body
                                       @ ''</span>'')))))"

definition renderBlock ::
  "('e, 'x) engine \<Rightarrow> ('e, 'x) options \<Rightarrow> token list \<Rightarrow> nat \<Rightarrow> 'e \<Rightarrow> js_exn + string" where
  "renderBlock engine opts toks idx env =
     (case token_content toks idx of
        Inl e \<Rightarrow> Inl e
      | Inr maths \<Rightarrow>
          let throw = resolve_throw opts env
          in case engine maths (opts\<lparr>throwOnError := Flag throw\<rparr>) True of
               Inr rendered \<Rightarrow>
                 Inr (''<'' @ interpolate (blockWrapper opts) @ '' class=\"katex-block\">''
                      @ [CHR 0x0A] @ rendered @ [CHR 0x0A]
                      @ ''</'' @ interpolate (blockWrapper opts) @ ''>'' @ [CHR 0x0A])
             | Inl err \<Rightarrow>
                 if throw then Inl (EngineError (with_source err maths))
                 else
                   (case escapeHtml (Some (description err)) of
                      Inl e \<Rightarrow> Inl e
                    | Inr title \<Rightarrow>
                        (case escapeHtml (Some maths) of
                           Inl e \<Rightarrow> Inl e
                         | Inr body \<Rightarrow>
                             Inr (''<'' @ interpolate (blockWrapper opts)
                                  @ '' class=\"katex-block katex-error\" title=\"'' @ title
                                  @ ''\">'' @ body
                                  @ ''</'' @ interpolate (blockWrapper opts) @ ''>''))))"

text \<open>
  \<open>plugin(md, options)\<close> applies the defaults once and registers the two render
  functions; these are the functions the host then calls.
\<close>

definition plugin_renderInline ::
  "('e, 'x) engine \<Rightarrow> ('e, 'x) options \<Rightarrow> token list \<Rightarrow> nat \<Rightarrow> 'e \<Rightarrow> js_exn + string" where
  "plugin_renderInline engine opts = renderInline engine (with_defaults opts)"

definition plugin_renderBlock ::
  "('e, 'x) engine \<Rightarrow> ('e, 'x) options \<Rightarrow> token list \<Rightarrow> nat \<Rightarrow> 'e \<Rightarrow> js_exn + string" where
  "plugin_renderBlock engine opts = renderBlock engine (with_defaults opts)"

section \<open>The legacy variant\<close>
















section \<open>The specification's notions\<close>

text \<open>
  The notions the properties below are stated with, each defined from the words of the
  specification and independently of the program: the neighbours of a position, the run of
  backslashes before a position, the first unescaped dollar sign, the escaping of a text for
  HTML and the wrapper tag of a block.
\<close>

definition blank_at :: "string \<Rightarrow> int \<Rightarrow> bool" where
  "blank_at s i = (str_at s i = Some (CHR 0x20) \<or> str_at s i = Some (CHR 0x09))"

definition digit_at :: "string \<Rightarrow> int \<Rightarrow> bool" where
  "digit_at s i =
     (case str_at s i of
        None \<Rightarrow> False
      | Some c \<Rightarrow> 0x30 \<le> (of_char c :: int) \<and> (of_char c :: int) \<le> 0x39)"

definition backslashes_before :: "string \<Rightarrow> nat \<Rightarrow> nat" where
  "backslashes_before s m = length (takeWhile (\<lambda>c. c = CHR 0x5C) (rev (take m s)))"

definition unescaped_dollar :: "string \<Rightarrow> nat \<Rightarrow> bool" where
  "unescaped_dollar s k = (s ! k = CHR ''$'' \<and> even (backslashes_before s k))"

definition first_unescaped :: "string \<Rightarrow> nat \<Rightarrow> nat option" where
  "first_unescaped s start = List.find (unescaped_dollar s) [start..<length s]"

fun escape_char :: "char \<Rightarrow> string" where
  "escape_char c =
     (if c = CHR ''&'' then ''&amp;''
      else if c = CHR ''<'' then ''&lt;''
      else if c = CHR ''>'' then ''&gt;''
      else if c = CHR 0x22 then ''&quot;''
      else if c = CHR 0x27 then ''&#039;''
      else [c])"

definition html_escaped :: "string \<Rightarrow> string" where
  "html_escaped s = concat (map escape_char s)"

definition wrapper_tag :: "('e, 'x) options \<Rightarrow> string" where
  "wrapper_tag opts = (case blockWrapper opts of Defined w \<Rightarrow> w | _ \<Rightarrow> ''div'')"



text \<open>
  For the block scanner: where the content of a line starts, the content of a line without its
  indentation, a non-empty line indented less than the enclosing block requires, a text whose
  trimmed form ends with the block marker, a line that starts with the block marker, the rest
  of such a line after the marker, and the block token as it is when the host's
  \<open>getLines\<close> is called.
\<close>

definition line_start :: "block_state \<Rightarrow> nat \<Rightarrow> jsnum" where
  "line_start st n = js_add (arr_get (bMarks st) n) (arr_get (tShift st) n)"

definition line_text :: "block_state \<Rightarrow> nat \<Rightarrow> string" where
  "line_text st n = slice_num (src st) (line_start st n) (arr_get (eMarks st) n)"

definition under_indented :: "block_state \<Rightarrow> nat \<Rightarrow> bool" where
  "under_indented st n =
     (js_lt (line_start st n) (arr_get (eMarks st) n)
      \<and> js_lt (arr_get (tShift st) n) (JNum (blkIndent st)))"

definition ends_with_marker :: "string \<Rightarrow> bool" where
  "ends_with_marker t = (slice_from (js_trim t) (- 2) = ''$$'')"

definition opens_block :: "block_state \<Rightarrow> nat \<Rightarrow> bool" where
  "opens_block st n =
     (js_le (js_add (line_start st n) (JNum 2)) (arr_get (eMarks st) n)
      \<and> slice_num (src st) (line_start st n) (js_add (line_start st n) (JNum 2)) = ''$$'')"

definition first_rest :: "block_state \<Rightarrow> nat \<Rightarrow> string" where
  "first_rest st n =
     slice_num (src st) (js_add (line_start st n) (JNum 2)) (arr_get (eMarks st) n)"

definition open_token :: token where
  "open_token =
     \<lparr>ttype = ''math_block'', tag = ''math'', nesting = 0, markup = [], content = [],
      block = True, tmap = None\<rparr>"

section \<open>Concrete inputs\<close>

text \<open>
  Inline states: the label of a link \<open>[$a]$1\<close> being scanned (the host has set
  \<open>posMax\<close> to the closing bracket), a span with an escaped dollar sign, a plain span, and
  a buffer that starts with two backslashes.
\<close>

definition link_label_state :: inline_state where
  "link_label_state = \<lparr>src = ''[$a]$1'', tokens = [], pos = 1, posMax = 3, pending = []\<rparr>"

definition escaped_span_state :: inline_state where
  "escaped_span_state =
     \<lparr>src = ''$a'' @ [CHR 0x5C] @ ''$b$'', tokens = [], pos = 0, posMax = 6, pending = []\<rparr>"

definition probe_state :: inline_state where
  "probe_state = \<lparr>src = ''$x$'', tokens = [], pos = 0, posMax = 3, pending = []\<rparr>"

definition backslash_run :: string where
  "backslash_run = [CHR 0x5C, CHR 0x5C, CHR ''$'']"

text \<open>
  Block states, with the line tables the host computes. The first is the text
  \<open>- $$\<close>, \<open>  a\<close>, \<open>b\<close> (three lines) while the host scans the list item that
  starts on line 0: the item's content starts at column 2, which is the required indent. The
  second is the text \<open>$$\<close>, \<open>foo\<close> (two lines) at top level.
\<close>

definition list_item_state :: block_state where
  "list_item_state =
     \<lparr>src = ''- $$'' @ [CHR 0x0A] @ ''  a'' @ [CHR 0x0A] @ ''b'', tokens = [],
      bMarks = [0, 5, 9, 10], eMarks = [4, 8, 10, 10], tShift = [2, 2, 0, 0],
      blkIndent = 2, line = 0\<rparr>"

definition unterminated_state :: block_state where
  "unterminated_state =
     \<lparr>src = ''$$'' @ [CHR 0x0A] @ ''foo'', tokens = [],
      bMarks = [0, 3, 6], eMarks = [2, 6, 6], tShift = [0, 0, 0],
      blkIndent = 0, line = 0\<rparr>"

text \<open>
  For the render functions: an engine that returns its input, an engine that always raises an
  error described as \<open>bad\<close>, the options with nothing configured, and a token with a given
  content.
\<close>

definition echo_engine :: "(unit, unit) engine" where
  "echo_engine latex opts display = Inr latex"

definition failing_engine :: "(unit, unit) engine" where
  "failing_engine latex opts display = Inl \<lparr>description = ''bad'', diagnostics = Map.empty\<rparr>"

definition plain_options :: "(unit, unit) options" where
  "plain_options =
     \<lparr>blockWrapper = Absent, throwOnError = Unset, errorColor = None, otherOptions = ()\<rparr>"


definition content_token :: "string \<Rightarrow> string \<Rightarrow> token" where
  "content_token ty txt =
     \<lparr>ttype = ty, tag = ''math'', nesting = 0, markup = [], content = txt, block = False,
      tmap = None\<rparr>"

section \<open>The delimiter classifier: claim C2\<close>

lemma of_char_is_space: "((of_char c :: int) = 32) = (c = CHR 0x20)"
  using of_char_eq_iff [of c "CHR 0x20", where ?'a = int] by simp

lemma of_char_is_tab: "((of_char c :: int) = 9) = (c = CHR 0x09)"
  using of_char_eq_iff [of c "CHR 0x09", where ?'a = int] by simp

lemma prevChar_blank:
  "((if p > 0 then charCodeAt s (p - 1) else JNum (- 1)) = JNum 0x20
     \<or> (if p > 0 then charCodeAt s (p - 1) else JNum (- 1)) = JNum 0x09) = blank_at s (p - 1)"
  by (auto simp: charCodeAt_def str_at_def blank_at_def of_char_is_space of_char_is_tab)

lemma nextChar_blank:
  "((if p + 1 \<le> m then charCodeAt s (p + 1) else JNum (- 1)) = JNum 0x20
     \<or> (if p + 1 \<le> m then charCodeAt s (p + 1) else JNum (- 1)) = JNum 0x09)
   = (p + 1 \<le> m \<and> blank_at s (p + 1))"
  by (auto simp: charCodeAt_def str_at_def blank_at_def of_char_is_space of_char_is_tab)

lemma nextChar_digit:
  "(js_ge (if p + 1 \<le> m then charCodeAt s (p + 1) else JNum (- 1)) (JNum 0x30)
     \<and> js_le (if p + 1 \<le> m then charCodeAt s (p + 1) else JNum (- 1)) (JNum 0x39))
   = (p + 1 \<le> m \<and> digit_at s (p + 1))"
  by (auto simp: charCodeAt_def str_at_def digit_at_def js_ge_def)

lemma classifier_flags:
  "isValidDelimiter st p =
     \<lparr>can_open = \<not> (p + 1 \<le> posMax st \<and> blank_at (src st) (p + 1)),
      can_close = \<not> (blank_at (src st) (p - 1) \<or> (p + 1 \<le> posMax st \<and> digit_at (src st) (p + 1)))\<rparr>"
proof -
  have "can_open (isValidDelimiter st p) = (\<not> (p + 1 \<le> posMax st \<and> blank_at (src st) (p + 1)))"
    unfolding isValidDelimiter_def Let_def using nextChar_blank [of p "posMax st" "src st"]
    by simp
  moreover have "can_close (isValidDelimiter st p) =
      (\<not> (blank_at (src st) (p - 1) \<or> (p + 1 \<le> posMax st \<and> digit_at (src st) (p + 1))))"
    unfolding isValidDelimiter_def Let_def
    using prevChar_blank [of p "src st"] nextChar_digit [of p "posMax st" "src st"]
    by auto
  ultimately show ?thesis
    by (cases "isValidDelimiter st p") simp
qed

text \<open>
  Claim C2, as amended. For every state and every position \<open>p\<close>, the classifier returns
  \<open>can_close = false\<close> exactly when the character before \<open>p\<close> is a space or a tab, or
  \<open>p + 1\<close> does not exceed the state's scan limit \<open>posMax\<close> and the character after
  \<open>p\<close> is an ASCII digit; it returns \<open>can_open = false\<close> exactly when \<open>p + 1\<close> does
  not exceed \<open>posMax\<close> and the character after \<open>p\<close> is a space or a tab. A neighbour
  outside the buffer counts as none. The classifier only reads the state: its result is the
  pair of flags and nothing else.
\<close>

theorem isValidDelimiter_flags:
  "isValidDelimiter st p =
     \<lparr>can_open = \<not> (p + 1 \<le> posMax st \<and> blank_at (src st) (p + 1)),
      can_close = \<not> (blank_at (src st) (p - 1) \<or> (p + 1 \<le> posMax st \<and> digit_at (src st) (p + 1)))\<rparr>"
  by (rule classifier_flags)

text \<open>
  The claim as the specification words it, with the end of the buffer as the only limit, holds
  whenever the scan limit reaches the last character of the buffer, as it does in a state the
  host creates for a whole inline run (\<open>posMax\<close> is the length of \<open>src\<close>).
\<close>

lemma isValidDelimiter_whole_buffer:
  assumes "int (length (src st)) \<le> posMax st + 1"
  shows "isValidDelimiter st p =
     \<lparr>can_open = \<not> blank_at (src st) (p + 1),
      can_close = \<not> (blank_at (src st) (p - 1) \<or> digit_at (src st) (p + 1))\<rparr>"
proof -
  have "p + 1 \<le> posMax st" if "str_at (src st) (p + 1) \<noteq> None"
    using that assms by (simp add: str_at_def split: if_splits)
  then have "blank_at (src st) (p + 1) \<Longrightarrow> p + 1 \<le> posMax st"
    and "digit_at (src st) (p + 1) \<Longrightarrow> p + 1 \<le> posMax st"
    by (auto simp: blank_at_def digit_at_def split: option.splits)
  then show ?thesis
    unfolding classifier_flags by auto
qed

text \<open>
  Counterexample to claim C2 as stated. Where the scan limit lies before the end of the buffer,
  as it does while the host scans the label of a link, a neighbour beyond the limit is not
  looked at: in \<open>[$a]$1\<close> with \<open>posMax = 3\<close> the dollar sign at position 4 is
  followed by the digit \<open>1\<close>, and \<open>can_close\<close> is still true.
\<close>

theorem isValidDelimiter_digit_beyond_posMax:
  "str_at (src link_label_state) 4 = Some (CHR ''$'')
   \<and> digit_at (src link_label_state) 5
   \<and> can_close (isValidDelimiter link_label_state 4)"
  by (simp add: link_label_state_def isValidDelimiter_def Let_def charCodeAt_def digit_at_def
        str_at_def js_ge_def)

section \<open>The inline scanner's search\<close>

text \<open>The inner loop counts the backslashes before a position.\<close>

lemma skip_backslashes_outside: "p < 0 \<Longrightarrow> skip_backslashes s p = p"
  by (simp add: skip_backslashes.simps str_at_def)

lemma backslashes_before_0: "backslashes_before s 0 = 0"
  by (simp add: backslashes_before_def)

lemma backslashes_before_Suc:
  "m < length s \<Longrightarrow> backslashes_before s (Suc m) =
     (if s ! m = CHR 0x5C then Suc (backslashes_before s m) else 0)"
  by (simp add: backslashes_before_def take_Suc_conv_app_nth)

lemma skip_backslashes_count:
  "m \<le> length s \<Longrightarrow> skip_backslashes s (int m - 1) = int m - 1 - int (backslashes_before s m)"
proof (induction m)
  case 0
  then show ?case
    by (simp add: skip_backslashes_outside backslashes_before_0)
next
  case (Suc m)
  then have m: "m < length s" by simp
  have at: "str_at s (int m) = Some (s ! m)"
    using m by (simp add: str_at_def)
  show ?case
  proof (cases "s ! m = CHR 0x5C")
    case True
    have "skip_backslashes s (int m) = skip_backslashes s (int m - 1)"
      using at True by (subst skip_backslashes.simps) simp
    with Suc.IH m True show ?thesis
      by (simp add: backslashes_before_Suc)
  next
    case False
    have "skip_backslashes s (int m) = int m"
      using at False by (subst skip_backslashes.simps) simp
    with m False show ?thesis
      by (simp add: backslashes_before_Suc)
  qed
qed

lemma js_rem_2_pos: "0 \<le> k \<Longrightarrow> (js_rem (1 + k) 2 = 1) = even k"
  by (auto simp: js_rem_def sgn_if) presburger+

lemma parity_test:
  assumes "m \<le> length s"
  shows "(js_rem (int m - skip_backslashes s (int m - 1)) 2 = 1) = even (backslashes_before s m)"
proof -
  have "int m - skip_backslashes s (int m - 1) = 1 + int (backslashes_before s m)"
    using skip_backslashes_count [OF assms] by simp
  then show ?thesis
    using js_rem_2_pos [of "int (backslashes_before s m)"] by simp
qed

lemma js_indexOf_none:
  assumes "js_indexOf s c (int i) = - 1" and "i \<le> k" and "k < length s"
  shows "s ! k \<noteq> c"
proof -
  define k0 where "k0 = nat (max 0 (min (int i) (int (length s))))"
  have k0: "k0 = i"
    using assms(2,3) by (simp add: k0_def)
  from assms(1) have "first_index c (drop k0 s) = None"
    by (auto simp: js_indexOf_def k0_def Let_def split: option.splits)
  then have "c \<notin> set (drop i s)"
    unfolding k0 by (rule first_index_None)
  moreover have "s ! k = drop i s ! (k - i)" and "k - i < length (drop i s)"
    using assms(2,3) by simp_all
  ultimately show ?thesis
    by (metis nth_mem)
qed

lemma js_indexOf_first:
  assumes "js_indexOf s c (int i) = int m"
  shows "i \<le> m \<and> m < length s \<and> s ! m = c \<and> (\<forall>k. i \<le> k \<and> k < m \<longrightarrow> s ! k \<noteq> c)"
proof -
  define k0 where "k0 = nat (max 0 (min (int i) (int (length s))))"
  from assms have "\<exists>j. first_index c (drop k0 s) = Some j \<and> int m = int (k0 + j)"
    unfolding js_indexOf_def Let_def k0_def [symmetric] by (simp split: option.splits)
  then obtain j where j0: "first_index c (drop k0 s) = Some j" "int m = int (k0 + j)"
    by blast
  from j0(2) have "m = k0 + j"
    by (simp only: of_nat_eq_iff)
  with j0(1) have j: "first_index c (drop k0 s) = Some j" "m = k0 + j"
    by simp_all
  from first_index_Some [OF j(1)]
  have f: "j < length (drop k0 s)" "drop k0 s ! j = c" "\<forall>l<j. drop k0 s ! l \<noteq> c"
    by simp_all
  from f(1) have "k0 < length s"
    by simp
  then have k0: "k0 = i"
    by (simp add: k0_def split: if_splits)
  have "\<forall>k. i \<le> k \<and> k < m \<longrightarrow> s ! k \<noteq> c"
  proof (intro allI impI)
    fix k assume k: "i \<le> k \<and> k < m"
    then have "k - i < j"
      using j(2) k0 by auto
    with f(3) have "drop k0 s ! (k - i) \<noteq> c"
      by simp
    then show "s ! k \<noteq> c"
      using k f(1) j(2) k0 by auto
  qed
  with f j(2) k0 show ?thesis
    by simp
qed

lemma find_upt_skip:
  assumes "i \<le> m" and "\<forall>k. i \<le> k \<and> k < m \<longrightarrow> \<not> P k"
  shows "List.find P [i..<n] = List.find P [m..<n]"
  using assms
proof (induction "m - i" arbitrary: i)
  case 0
  then show ?case by simp
next
  case (Suc d)
  then have lt: "i < m" and np: "\<not> P i"
    by auto
  have step: "List.find P [i..<n] = List.find P [Suc i..<n]"
  proof (cases "i < n")
    case True
    with np show ?thesis
      by (simp add: upt_conv_Cons)
  next
    case False
    then show ?thesis by simp
  qed
  have "List.find P [Suc i..<n] = List.find P [m..<n]"
    using Suc.hyps(1) [of "Suc i"] Suc.hyps(2) Suc.prems lt by auto
  with step show ?case
    by simp
qed

lemma find_upt_none:
  assumes "\<forall>k. i \<le> k \<and> k < n \<longrightarrow> \<not> P k"
  shows "List.find P [i..<n] = None"
  using assms by (simp add: find_None_iff)

lemma find_close_refines:
  "find_close s (int i) = (case first_unescaped s i of None \<Rightarrow> - 1 | Some m \<Rightarrow> int m)"
proof (induction "length s - i" arbitrary: i rule: less_induct)
  case less
  show ?case
  proof (cases "js_indexOf s (CHR ''$'') (int i) = - 1")
    case True
    then have "\<forall>k. i \<le> k \<and> k < length s \<longrightarrow> \<not> unescaped_dollar s k"
      using js_indexOf_none [of s "CHR ''$''" i] by (auto simp: unescaped_dollar_def)
    then have "first_unescaped s i = None"
      unfolding first_unescaped_def by (rule find_upt_none)
    with True show ?thesis
      by (subst find_close.simps) simp
  next
    case False
    from js_indexOf_found [OF False] obtain m where m: "js_indexOf s (CHR ''$'') (int i) = int m"
      by (metis nonneg_int_cases)
    from js_indexOf_first [OF m]
    have im: "i \<le> m" "m < length s" "s ! m = CHR ''$''"
      and before: "\<forall>k. i \<le> k \<and> k < m \<longrightarrow> \<not> unescaped_dollar s k"
      by (auto simp: unescaped_dollar_def)
    have skip: "first_unescaped s i = List.find (unescaped_dollar s) [m..<length s]"
      unfolding first_unescaped_def using im(1) before by (rule find_upt_skip)
    have test: "(js_rem (int m - skip_backslashes s (int m - 1)) 2 = 1) = unescaped_dollar s m"
      using parity_test [of m s] im by (simp add: unescaped_dollar_def)
    show ?thesis
    proof (cases "unescaped_dollar s m")
      case True
      then have "first_unescaped s i = Some m"
        using skip im(2) by (simp add: upt_conv_Cons)
      moreover have "find_close s (int i) = int m"
        using m test True by (subst find_close.simps) (simp add: Let_def)
      ultimately show ?thesis
        by simp
    next
      case no: False
      then have "first_unescaped s i = first_unescaped s (Suc m)"
        using skip im(2) by (simp add: upt_conv_Cons first_unescaped_def)
      moreover have "find_close s (int i) = find_close s (int (Suc m))"
        using m test no by (subst find_close.simps) (simp add: Let_def add.commute)
      moreover have "find_close s (int (Suc m)) =
          (case first_unescaped s (Suc m) of None \<Rightarrow> - 1 | Some m \<Rightarrow> int m)"
        using im by (intro less.hyps) simp
      ultimately show ?thesis
        by simp
    qed
  qed
qed

section \<open>The inline scanner in commit mode: claim C1\<close>

lemma js_slice_between:
  assumes "a \<le> b" and "b \<le> length s"
  shows "js_slice s (int a) (int b) = take (b - a) (drop a s)"
  using assms by (simp add: js_slice_def rel_index_def Let_def min_def nat_diff_distrib')

lemma find_close_from_opener:
  assumes "str_at (src st) (pos st) = Some (CHR ''$'')"
  shows "find_close (src st) (pos st + 1) =
     (case first_unescaped (src st) (nat (pos st + 1)) of None \<Rightarrow> - 1 | Some m \<Rightarrow> int m)"
proof -
  from assms have "0 \<le> pos st"
    by (simp add: str_at_def split: if_splits)
  then show ?thesis
    using find_close_refines [of "src st" "nat (pos st + 1)"] by simp
qed

lemma math_inline_emits:
  assumes dollar: "str_at (src st) (pos st) = Some (CHR ''$'')"
    and opener: "can_open (isValidDelimiter st (pos st))"
    and cand: "first_unescaped (src st) (nat (pos st + 1)) = Some m"
    and apart: "int m \<noteq> pos st + 1"
    and closer: "can_close (isValidDelimiter st (int m))"
  shows "math_inline st False =
     (True, st\<lparr>tokens := tokens st @
                [\<lparr>ttype = ''math_inline'', tag = ''math'', nesting = 0, markup = ''$'',
                  content = take (m - nat (pos st + 1)) (drop (nat (pos st + 1)) (src st)),
                  block = False, tmap = None\<rparr>],
              pos := int m + 1\<rparr>)"
proof -
  from dollar have p0: "0 \<le> pos st"
    by (simp add: str_at_def split: if_splits)
  define start where "start = nat (pos st + 1)"
  have start: "int start = pos st + 1"
    using p0 by (simp add: start_def)
  from cand have "m \<in> set [start..<length (src st)]"
    unfolding first_unescaped_def start_def by (auto simp: find_Some_iff)
  then have range: "start \<le> m" "m \<le> length (src st)"
    by simp_all
  have found: "find_close (src st) (pos st + 1) = int m"
    using find_close_from_opener [OF dollar] cand by simp
  have slice: "js_slice (src st) (pos st + 1) (int m) = take (m - start) (drop start (src st))"
    using js_slice_between [OF range] by (simp add: start)
  show ?thesis
    using dollar opener apart closer
    by (simp add: math_inline_def Let_def found slice emit_inline_def push_def new_token_def
          start_def)
qed

text \<open>
  Claim C1. Let the cursor hold a dollar sign that classifies as a valid opener. Then the
  forward search returns the first dollar sign after the opener that is preceded by an even
  number (zero included) of consecutive backslashes, passing over every dollar sign preceded
  by an odd number, and \<open>-1\<close> when there is none. In commit mode, when that candidate is
  not adjacent to the opener and classifies as a valid closer, the scanner reports success,
  appends exactly one \<open>math_inline\<close> token whose content is the buffer strictly between
  the opener and the candidate, sets the cursor to one past the candidate and changes nothing
  else.
\<close>

theorem math_inline_first_unescaped_close:
  assumes "str_at (src st) (pos st) = Some (CHR ''$'')"
    and "can_open (isValidDelimiter st (pos st))"
  shows "find_close (src st) (pos st + 1) =
           (case first_unescaped (src st) (nat (pos st + 1)) of None \<Rightarrow> - 1 | Some m \<Rightarrow> int m)
       \<and> (\<forall>m. first_unescaped (src st) (nat (pos st + 1)) = Some m
               \<and> int m \<noteq> pos st + 1
               \<and> can_close (isValidDelimiter st (int m))
             \<longrightarrow> math_inline st False =
                   (True, st\<lparr>tokens := tokens st @
                      [\<lparr>ttype = ''math_inline'', tag = ''math'', nesting = 0, markup = ''$'',
                        content = take (m - nat (pos st + 1)) (drop (nat (pos st + 1)) (src st)),
                        block = False, tmap = None\<rparr>],
                      pos := int m + 1\<rparr>))"
  using assms find_close_from_opener [of st] math_inline_emits [of st] by blast

lemma escaped_span_candidate: "first_unescaped (src escaped_span_state) 1 = Some 5"
  by (simp add: escaped_span_state_def first_unescaped_def unescaped_dollar_def backslashes_before_def upt_rec)

lemma escaped_span_flags: "can_open (isValidDelimiter escaped_span_state 0)" "can_close (isValidDelimiter escaped_span_state 5)"
  by (simp_all add: classifier_flags escaped_span_state_def blank_at_def digit_at_def str_at_def)

text \<open>
  The theorem at \<open>$a\$b$\<close>: the escaped dollar sign at position 3 is passed over, the one
  at position 5 closes the span, and the token's content is \<open>a\$b\<close>.
\<close>

theorem math_inline_first_unescaped_close_witness:
  "find_close (src escaped_span_state) 1 = 5
   \<and> math_inline escaped_span_state False =
       (True, escaped_span_state\<lparr>tokens :=
           [\<lparr>ttype = ''math_inline'', tag = ''math'', nesting = 0, markup = ''$'',
             content = ''a'' @ [CHR 0x5C] @ ''$b'', block = False, tmap = None\<rparr>],
           pos := 6\<rparr>)"
proof -
  have st: "str_at (src escaped_span_state) (pos escaped_span_state) = Some (CHR ''$'')"
    by (simp add: escaped_span_state_def str_at_def)
  have op: "can_open (isValidDelimiter escaped_span_state (pos escaped_span_state))"
    using escaped_span_flags(1) by (simp add: escaped_span_state_def)
  have p: "pos escaped_span_state = 0" "tokens escaped_span_state = []"
    by (simp_all add: escaped_span_state_def)
  from math_inline_first_unescaped_close [OF st op] escaped_span_candidate escaped_span_flags(2)
  show ?thesis
    by (simp add: p) (simp add: escaped_span_state_def)
qed

section \<open>The backslash loop: claim C10\<close>

lemma skip_backslashes_stops: "str_at s (skip_backslashes s p) \<noteq> Some (CHR 0x5C)"
proof (induction s p rule: skip_backslashes.induct)
  case (1 s p)
  then show ?case
    by (subst skip_backslashes.simps) simp
qed

lemma skip_backslashes_range:
  "- 1 \<le> p \<Longrightarrow> - 1 \<le> skip_backslashes s p \<and> skip_backslashes s p \<le> p"
proof (induction s p rule: skip_backslashes.induct)
  case (1 s p)
  show ?case
  proof (cases "str_at s p = Some (CHR 0x5C)")
    case True
    then have "0 \<le> p"
      by (simp add: str_at_def split: if_splits)
    moreover have "skip_backslashes s p = skip_backslashes s (p - 1)"
      using True by (subst skip_backslashes.simps) simp
    ultimately show ?thesis
      using 1(1) [OF True] by simp
  next
    case False
    then have "skip_backslashes s p = p"
      by (subst skip_backslashes.simps) simp
    with 1(2) show ?thesis
      by simp
  qed
qed

lemma backslashes_before_all:
  "m \<le> length s \<Longrightarrow> \<forall>i<m. s ! i = CHR 0x5C \<Longrightarrow> backslashes_before s m = m"
proof (induction m)
  case 0
  then show ?case by (simp add: backslashes_before_0)
next
  case (Suc m)
  then show ?case
    by (simp add: backslashes_before_Suc)
qed

lemma skip_backslashes_above:
  assumes "str_at s q = Some c" and "c \<noteq> CHR 0x5C" and "q \<le> p"
  shows "q \<le> skip_backslashes s p"
  using assms
proof (induction s p rule: skip_backslashes.induct)
  case (1 s p)
  show ?case
  proof (cases "str_at s p = Some (CHR 0x5C)")
    case True
    with 1(2,3,4) have "q \<le> p - 1"
      by (cases "q = p") auto
    with 1(1) [OF True 1(2,3)] have "q \<le> skip_backslashes s (p - 1)"
      by simp
    moreover have "skip_backslashes s p = skip_backslashes s (p - 1)"
      using True by (subst skip_backslashes.simps) simp
    ultimately show ?thesis
      by simp
  next
    case False
    then have "skip_backslashes s p = p"
      by (subst skip_backslashes.simps) simp
    with 1(4) show ?thesis
      by simp
  qed
qed

lemma math_inline_fst: "fst (math_inline st silent) = (str_at (src st) (pos st) = Some (CHR ''$''))"
  by (simp add: math_inline_def Let_def)

text \<open>
  Claim C10. The backward loop over the backslashes is a total function (its termination is
  proved where it is defined), and so is the scanner, which has no failing branch: it returns
  true or false for every state and mode. The loop stops at a position that holds no
  backslash; started at \<open>-1\<close> or later it ends between \<open>-1\<close> and its start, and never
  below a position that holds another character, such as the opener. When the \<open>m\<close>
  characters before position \<open>m\<close> are all backslashes, back to the start of the buffer, the
  index descends to \<open>-1\<close>, where the read outside the buffer yields no backslash, and the
  parity test is the parity of the whole run of \<open>m\<close> backslashes.
\<close>

theorem skip_backslashes_in_bounds:
  "str_at s (skip_backslashes s p) \<noteq> Some (CHR 0x5C)
   \<and> (- 1 \<le> p \<longrightarrow> - 1 \<le> skip_backslashes s p \<and> skip_backslashes s p \<le> p)
   \<and> (str_at s q = Some (CHR ''$'') \<and> q \<le> p \<longrightarrow> q \<le> skip_backslashes s p)
   \<and> (m \<le> length s \<and> (\<forall>i<m. s ! i = CHR 0x5C) \<longrightarrow>
        skip_backslashes s (int m - 1) = - 1
        \<and> (js_rem (int m - skip_backslashes s (int m - 1)) 2 = 1) = even m)
   \<and> fst (math_inline st silent) = (str_at (src st) (pos st) = Some (CHR ''$''))"
proof (intro conjI impI)
  show "str_at s (skip_backslashes s p) \<noteq> Some (CHR 0x5C)"
    by (rule skip_backslashes_stops)
next
  assume "- 1 \<le> p"
  then show "- 1 \<le> skip_backslashes s p" and "skip_backslashes s p \<le> p"
    using skip_backslashes_range [of p s] by simp_all
next
  assume "str_at s q = Some (CHR ''$'') \<and> q \<le> p"
  then show "q \<le> skip_backslashes s p"
    using skip_backslashes_above [of s q "CHR ''$''" p] by simp
next
  assume run: "m \<le> length s \<and> (\<forall>i<m. s ! i = CHR 0x5C)"
  then have count: "backslashes_before s m = m"
    using backslashes_before_all [of m s] by simp
  show "skip_backslashes s (int m - 1) = - 1"
    using skip_backslashes_count [of m s] run count by simp
  show "(js_rem (int m - skip_backslashes s (int m - 1)) 2 = 1) = even m"
    using parity_test [of m s] run count by simp
next
  show "fst (math_inline st silent) = (str_at (src st) (pos st) = Some (CHR ''$''))"
    by (rule math_inline_fst)
qed

text \<open>
  The theorem at the buffer of two backslashes and a dollar sign: started at position 1 the
  loop descends to \<open>-1\<close>, the test sees two backslashes, and the search accepts the dollar
  sign at position 2; started at position 2, which holds the dollar sign, it stays there.
\<close>

theorem skip_backslashes_in_bounds_witness:
  "skip_backslashes backslash_run 1 = - 1
   \<and> js_rem (2 - skip_backslashes backslash_run 1) 2 = 1
   \<and> skip_backslashes backslash_run 2 = 2
   \<and> find_close backslash_run 0 = 2"
proof -
  have len: "(2::nat) \<le> length backslash_run"
    by (simp add: backslash_run_def)
  have all: "\<forall>i<2. backslash_run ! i = CHR 0x5C"
    by (auto simp: backslash_run_def less_Suc_eq numeral_2_eq_2)
  have dollar: "str_at backslash_run 2 = Some (CHR ''$'')"
    by (simp add: backslash_run_def str_at_def)
  from skip_backslashes_in_bounds [of backslash_run 2 2 2] len all dollar
  have skip: "skip_backslashes backslash_run 1 = - 1"
    and par: "js_rem (2 - skip_backslashes backslash_run 1) 2 = 1"
    and stay: "skip_backslashes backslash_run 2 = 2"
    by (simp add: js_rem_def, simp add: js_rem_def, force)
  have "js_indexOf backslash_run (CHR ''$'') 0 = 2"
    by (simp add: js_indexOf_def backslash_run_def)
  then have "find_close backslash_run 0 = 2"
    using par by (subst find_close.simps) (simp add: Let_def)
  with skip par stay show ?thesis
    by simp
qed

section \<open>The inline scanner in probe mode: claim C3\<close>

lemma add_pending_probe: "add_pending True txt st = st"
  by (simp add: add_pending_def)

lemma emit_inline_probe: "emit_inline True txt st = st"
  by (simp add: emit_inline_def)

lemma math_inline_pos: "pos (snd (math_inline st silent)) = pos (snd (math_inline st False))"
  by (simp add: math_inline_def Let_def add_pending_def emit_inline_def push_def)

lemma math_inline_probe_frame: "snd (math_inline st True) = st\<lparr>pos := pos (snd (math_inline st True))\<rparr>"
  by (simp add: math_inline_def Let_def add_pending_probe emit_inline_probe)

text \<open>
  Claim C3, as amended. For every parser state, a probe (silent call) of the inline scanner
  leaves the pending buffer, the token list and everything else but the scan cursor unchanged;
  it moves the cursor exactly as the commit call does and returns the same boolean as the
  commit call. Once the cursor is set back to the probed position the state is the one before
  the probe, so a repeated probe there returns the same result.
\<close>

theorem math_inline_probe_only_moves_cursor:
  "fst (math_inline st True) = fst (math_inline st False)
   \<and> snd (math_inline st True) = st\<lparr>pos := pos (snd (math_inline st False))\<rparr>
   \<and> math_inline ((snd (math_inline st True))\<lparr>pos := pos st\<rparr>) True = math_inline st True"
proof -
  have "snd (math_inline st True) = st\<lparr>pos := pos (snd (math_inline st False))\<rparr>"
    using math_inline_probe_frame [of st] math_inline_pos [of st True] by simp
  moreover from this have "(snd (math_inline st True))\<lparr>pos := pos st\<rparr> = st"
    by simp
  ultimately show ?thesis
    by (simp add: math_inline_fst)
qed

text \<open>
  Counterexample to claim C3 as stated: the probe of \<open>$x$\<close> at position 0 moves the
  cursor to 3.
\<close>

theorem math_inline_probe_moves_cursor:
  "pos probe_state = 0 \<and> math_inline probe_state True = (True, probe_state\<lparr>pos := 3\<rparr>)"
proof -
  have "js_indexOf ''$x$'' (CHR ''$'') 1 = 2"
    by (simp add: js_indexOf_def)
  moreover have "skip_backslashes ''$x$'' 1 = 1"
    by (subst skip_backslashes.simps) (simp add: str_at_def)
  ultimately have "find_close ''$x$'' 1 = 2"
    by (subst find_close.simps) (simp add: Let_def js_rem_def)
  then show ?thesis
    by (simp add: probe_state_def math_inline_def Let_def classifier_flags blank_at_def
          digit_at_def str_at_def emit_inline_probe)
qed

section \<open>The block scanner: claims C4 and C5\<close>

text \<open>How the line loop runs: it passes a line that neither stops nor closes the block.\<close>

lemma scan_lines_step:
  assumes "Suc n < e" and "\<not> under_indented st (Suc n)" and "\<not> ends_with_marker (line_text st (Suc n))"
  shows "scan_lines st e n = scan_lines st e (Suc n)"
  using assms
  by (subst scan_lines.simps)
     (auto simp: Let_def under_indented_def ends_with_marker_def line_text_def line_start_def)

lemma scan_lines_end: "e \<le> Suc n \<Longrightarrow> scan_lines st e n = (Suc n, None)"
  by (subst scan_lines.simps) simp

lemma scan_lines_under: "Suc n < e \<Longrightarrow> under_indented st (Suc n) \<Longrightarrow> scan_lines st e n = (Suc n, None)"
  by (subst scan_lines.simps) (simp add: Let_def under_indented_def line_start_def)

lemma scan_lines_skips:
  assumes "n \<le> k" and "k < e"
    and "\<forall>i. n < i \<and> i \<le> k \<longrightarrow> \<not> under_indented st i \<and> \<not> ends_with_marker (line_text st i)"
  shows "scan_lines st e n = scan_lines st e k"
  using assms
proof (induction "k - n" arbitrary: n)
  case 0
  then show ?case by simp
next
  case (Suc d)
  then have "Suc n \<le> k" "Suc n < e"
    by auto
  moreover from Suc.prems have "\<not> under_indented st (Suc n)" "\<not> ends_with_marker (line_text st (Suc n))"
    using \<open>Suc n \<le> k\<close> by auto
  ultimately have "scan_lines st e n = scan_lines st e (Suc n)"
    by (simp add: scan_lines_step)
  also have "\<dots> = scan_lines st e k"
    using Suc.hyps(1) [of "Suc n"] Suc.hyps(2) Suc.prems \<open>Suc n \<le> k\<close> by auto
  finally show ?case .
qed

lemma scan_lines_exhausts:
  assumes "start < e"
    and "\<forall>i. start < i \<and> i < e \<longrightarrow> \<not> under_indented st i \<and> \<not> ends_with_marker (line_text st i)"
  shows "scan_lines st e start = (e, None)"
proof -
  obtain k where k: "e = Suc k" "start \<le> k"
    using assms(1) by (cases e) auto
  have "scan_lines st e start = scan_lines st e k"
    using k assms(2) by (intro scan_lines_skips) auto
  also have "\<dots> = (e, None)"
    using k by (simp add: scan_lines_end)
  finally show ?thesis .
qed

lemma scan_lines_stops_under:
  assumes "start < k" and "k < e" and "under_indented st k"
    and "\<forall>i. start < i \<and> i < k \<longrightarrow> \<not> under_indented st i \<and> \<not> ends_with_marker (line_text st i)"
  shows "scan_lines st e start = (k, None)"
proof -
  obtain j where j: "k = Suc j" "start \<le> j"
    using assms(1) by (cases k) auto
  have "scan_lines st e start = scan_lines st e j"
    using j assms(2,4) by (intro scan_lines_skips) auto
  also have "\<dots> = (k, None)"
    using j assms(2,3) by (simp add: scan_lines_under)
  finally show ?thesis .
qed

lemma math_block_open_scan:
  assumes "opens_block st start" and "\<not> ends_with_marker (first_rest st start)"
    and "scan_lines st e start = (n, None)"
  shows "math_block getLines st start e False =
     (True, st\<lparr>line := n + 1,
        tokens := tokens st @
          [\<lparr>ttype = ''math_block'', tag = ''math'', nesting = 0, markup = ''$$'',
            content = (if non_blank (first_rest st start) then first_rest st start @ [CHR 0x0A] else [])
                      @ getLines (st\<lparr>line := n + 1, tokens := tokens st @ [open_token]\<rparr>)
                          (start + 1) n (arr_get (tShift st) start) True,
            block = True, tmap = Some (start, n + 1)\<rparr>]\<rparr>)"
proof -
  from assms(1) obtain a b where ab: "line_start st start = JNum a" "arr_get (eMarks st) start = JNum b"
    "a + 2 \<le> b"
    unfolding opens_block_def
    by (cases "line_start st start"; cases "arr_get (eMarks st) start") auto
  have gt: "\<not> js_gt (js_add (line_start st start) (JNum 2)) (arr_get (eMarks st) start)"
    using ab by (simp add: js_gt_def)
  show ?thesis
    using assms gt
    unfolding math_block_def Let_def opens_block_def first_rest_def ends_with_marker_def
      line_start_def [symmetric]
    by (simp add: push_def new_token_def open_token_def line_start_def)
qed

text \<open>
  What the commit call does when the search ends at a non-empty line \<open>k\<close> that is indented
  less than required: the content stops before line \<open>k\<close>, but the line pointer and the
  token's line range end after it.
\<close>

lemma math_block_under_indented:
  assumes "opens_block st start" and "\<not> ends_with_marker (first_rest st start)"
    and "start < k" and "k < e" and "under_indented st k"
    and "\<forall>i. start < i \<and> i < k \<longrightarrow> \<not> under_indented st i \<and> \<not> ends_with_marker (line_text st i)"
  shows "math_block getLines st start e False =
     (True, st\<lparr>line := k + 1,
        tokens := tokens st @
          [\<lparr>ttype = ''math_block'', tag = ''math'', nesting = 0, markup = ''$$'',
            content = (if non_blank (first_rest st start) then first_rest st start @ [CHR 0x0A] else [])
                      @ getLines (st\<lparr>line := k + 1, tokens := tokens st @ [open_token]\<rparr>)
                          (start + 1) k (arr_get (tShift st) start) True,
            block = True, tmap = Some (start, k + 1)\<rparr>]\<rparr>)"
  using assms(1,2) scan_lines_stops_under [OF assms(3-6)] by (rule math_block_open_scan)

text \<open>
  What the commit call does when the search runs to the end \<open>e\<close> of the line range: the
  block is accepted, its content is the rest of the first line and the lines up to \<open>e\<close>
  as the host returns them, and the line pointer and the token's line range end at
  \<open>e + 1\<close>.
\<close>

lemma math_block_unterminated:
  assumes "opens_block st start" and "\<not> ends_with_marker (first_rest st start)"
    and "start < e"
    and "\<forall>i. start < i \<and> i < e \<longrightarrow> \<not> under_indented st i \<and> \<not> ends_with_marker (line_text st i)"
  shows "math_block getLines st start e False =
     (True, st\<lparr>line := e + 1,
        tokens := tokens st @
          [\<lparr>ttype = ''math_block'', tag = ''math'', nesting = 0, markup = ''$$'',
            content = (if non_blank (first_rest st start) then first_rest st start @ [CHR 0x0A] else [])
                      @ getLines (st\<lparr>line := e + 1, tokens := tokens st @ [open_token]\<rparr>)
                          (start + 1) e (arr_get (tShift st) start) True,
            block = True, tmap = Some (start, e + 1)\<rparr>]\<rparr>)"
  using assms(1,2) scan_lines_exhausts [OF assms(3,4)] by (rule math_block_open_scan)

text \<open>The two concrete states, line by line.\<close>

lemma js_trim_Nil: "js_trim [] = []"
  by (simp add: js_trim_def)

lemma slice_from_short: "length s \<le> 1 \<Longrightarrow> slice_from s (- 2) \<noteq> ''$$''"
  by (cases s) (simp_all add: slice_from_def js_slice_def rel_index_def)

lemma list_item_fields:
  "bMarks list_item_state = [0, 5, 9, 10]"
  "eMarks list_item_state = [4, 8, 10, 10]"
  "tShift list_item_state = [2, 2, 0, 0]"
  "blkIndent list_item_state = 2"
  "tokens list_item_state = []"
  by (simp_all add: list_item_state_def)

lemma list_item_lines:
  "slice_num (src list_item_state) (JNum 2) (JNum 4) = ''$$''"
  "slice_num (src list_item_state) (JNum 4) (JNum 4) = []"
  "slice_num (src list_item_state) (JNum 7) (JNum 8) = ''a''"
  "slice_num (src list_item_state) (JNum 9) (JNum 10) = ''b''"
  "js_trim ''a'' = ''a''"
  by (simp_all add: list_item_state_def slice_num_def js_slice_def rel_index_def js_trim_def
        is_js_space_def)

lemma list_item_scan: "scan_lines list_item_state 3 0 = (2, None)"
proof -
  have "scan_lines list_item_state 3 0 = scan_lines list_item_state 3 1"
    by (subst scan_lines.simps)
       (simp add: Let_def list_item_fields arr_get_def list_item_lines slice_from_short)
  also have "\<dots> = (2, None)"
    by (subst scan_lines.simps) (simp add: Let_def list_item_fields arr_get_def)
  finally show ?thesis .
qed

lemma unterminated_fields:
  "bMarks unterminated_state = [0, 3, 6]"
  "eMarks unterminated_state = [2, 6, 6]"
  "tShift unterminated_state = [0, 0, 0]"
  "blkIndent unterminated_state = 0"
  "tokens unterminated_state = []"
  by (simp_all add: unterminated_state_def)

lemma unterminated_lines:
  "slice_num (src unterminated_state) (JNum 0) (JNum 2) = ''$$''"
  "slice_num (src unterminated_state) (JNum 2) (JNum 2) = []"
  "slice_num (src unterminated_state) (JNum 3) (JNum 6) = ''foo''"
  "js_trim ''foo'' = ''foo''"
  "slice_from ''foo'' (- 2) = ''oo''"
  by (simp_all add: unterminated_state_def slice_num_def slice_from_def js_slice_def rel_index_def
        js_trim_def is_js_space_def)

lemma unterminated_scan: "scan_lines unterminated_state 2 0 = (2, None)"
proof -
  have "scan_lines unterminated_state 2 0 = scan_lines unterminated_state 2 1"
    by (subst scan_lines.simps)
       (simp add: Let_def unterminated_fields arr_get_def unterminated_lines)
  also have "\<dots> = (2, None)"
    by (subst scan_lines.simps) simp
  finally show ?thesis .
qed

text \<open>
  Claim C4 says that when the line search of a commit scan meets a non-empty line indented
  less than the enclosing block requires, the scan stops without a close and that line is not
  consumed: the line pointer is left before it and the token's line range excludes it. The
  code stops there, but consumes the line. In the list item \<open>- $$\<close>, \<open>  a\<close> followed
  by the unindented line \<open>b\<close>, scanned from line 0 with the line range ending at 3, the
  search stops at line 2 without a close, line 2 is under-indented and not empty, the content
  is made of line 1 alone, and yet the line pointer is 3 and the token's line range is
  \<open>(0, 3)\<close>: line 2 is neither in the block's content nor left to the host.
\<close>

theorem math_block_consumes_under_indented_line:
  "under_indented list_item_state 2
   \<and> line_text list_item_state 2 = ''b''
   \<and> scan_lines list_item_state 3 0 = (2, None)
   \<and> math_block getLines list_item_state 0 3 False =
       (True, list_item_state\<lparr>line := 3,
          tokens := [\<lparr>ttype = ''math_block'', tag = ''math'', nesting = 0, markup = ''$$'',
            content = getLines (list_item_state\<lparr>line := 3, tokens := [open_token]\<rparr>)
                        1 2 (JNum 2) True,
            block = True, tmap = Some (0, 3)\<rparr>]\<rparr>)"
proof -
  have "under_indented list_item_state 2"
    by (simp add: under_indented_def line_start_def list_item_fields arr_get_def)
  moreover have "line_text list_item_state 2 = ''b''"
    by (simp add: line_text_def line_start_def list_item_fields arr_get_def list_item_lines)
  moreover have "math_block getLines list_item_state 0 3 False =
       (True, list_item_state\<lparr>line := 3,
          tokens := [\<lparr>ttype = ''math_block'', tag = ''math'', nesting = 0, markup = ''$$'',
            content = getLines (list_item_state\<lparr>line := 3, tokens := [open_token]\<rparr>)
                        1 2 (JNum 2) True,
            block = True, tmap = Some (0, 3)\<rparr>]\<rparr>)"
    by (simp add: math_block_def Let_def list_item_scan list_item_fields arr_get_def js_gt_def
          list_item_lines js_trim_Nil slice_from_short non_blank_def push_def new_token_def
          open_token_def)
  ultimately show ?thesis
    by (simp add: list_item_scan)
qed

text \<open>
  Claim C5 says that a commit scan that reaches the end of the line range without a closing
  marker still accepts the block, raising no error, and emits a block token whose content is
  made of the dedented scanned lines and whose line range ends at the container's last line.
  The code accepts the block and takes the content from the host's \<open>getLines\<close> for the
  lines up to the end of the range, but its line range runs one line past the range it was
  given. For the text \<open>$$\<close>, \<open>foo\<close>, two lines scanned from line 0 with the line range
  ending at 2, the token's content is what the host returns for line 1, the line pointer is
  3 and the token's line range is \<open>(0, 3)\<close>, not \<open>(0, 2)\<close>.
\<close>

theorem math_block_unterminated_line_range:
  "math_block getLines unterminated_state 0 2 False =
     (True, unterminated_state\<lparr>line := 3,
        tokens := [\<lparr>ttype = ''math_block'', tag = ''math'', nesting = 0, markup = ''$$'',
          content = getLines (unterminated_state\<lparr>line := 3, tokens := [open_token]\<rparr>)
                      1 2 (JNum 0) True,
          block = True, tmap = Some (0, 3)\<rparr>]\<rparr>)"
  by (simp add: math_block_def Let_def unterminated_scan unterminated_fields arr_get_def js_gt_def
        unterminated_lines js_trim_Nil slice_from_short non_blank_def push_def new_token_def
        open_token_def)

section \<open>The render adapter: claims C6, C7 and C9\<close>

text \<open>
  \<open>escapeHtml\<close> on a string replaces each of the five characters by its entity and leaves
  every other character as it is: the five replacements, applied one after the other with the
  ampersand first, never touch what an earlier one produced.
\<close>

lemma replace_all_Nil: "replace_all c r [] = []"
  by (simp add: replace_all_def)

lemma replace_all_Cons: "replace_all c r (x # xs) = (if x = c then r else [x]) @ replace_all c r xs"
  by (simp add: replace_all_def)

lemma replace_all_append: "replace_all c r (xs @ ys) = replace_all c r xs @ replace_all c r ys"
  by (simp add: replace_all_def)

lemma escapeHtml_defined: "escapeHtml (Some u) = Inr (html_escaped u)"
proof -
  have "replace_all (CHR 0x27) ''&#039;''
          (replace_all (CHR 0x22) ''&quot;''
            (replace_all (CHR ''>'') ''&gt;''
              (replace_all (CHR ''<'') ''&lt;''
                (replace_all (CHR ''&'') ''&amp;'' u)))) = html_escaped u"
  proof (induction u)
    case Nil
    then show ?case
      by (simp add: replace_all_Nil html_escaped_def)
  next
    case (Cons x xs)
    have "html_escaped (x # xs) = escape_char x @ html_escaped xs"
      by (simp add: html_escaped_def)
    with Cons show ?case
      by (simp add: replace_all_Cons replace_all_append replace_all_Nil)
  qed
  then show ?thesis
    by (simp add: escapeHtml_def)
qed

lemma escapeHtml_undefined: "escapeHtml None = Inl TypeError"
  by (simp add: escapeHtml_def)

lemma resolve_throw_defaults: "resolve_throw (with_defaults opts) env = resolve_throw opts env"
  by (simp add: resolve_throw_def with_defaults_def)

lemma renderBlock_engine_output:
  assumes "idx < length toks"
    and "engine (content (toks ! idx))
           ((with_defaults opts)\<lparr>throwOnError := Flag (resolve_throw opts env)\<rparr>) True = Inr rendered"
  shows "plugin_renderBlock engine opts toks idx env =
     Inr (''<'' @ interpolate (blockWrapper (with_defaults opts)) @ '' class=\"katex-block\">''
          @ [CHR 0x0A] @ rendered @ [CHR 0x0A]
          @ ''</'' @ interpolate (blockWrapper (with_defaults opts)) @ ''>'' @ [CHR 0x0A])"
  using assms
  by (simp add: plugin_renderBlock_def renderBlock_def token_content_def Let_def
        resolve_throw_defaults)

lemma wrapper_tag_interpolated:
  "blockWrapper opts \<noteq> Undefined \<Longrightarrow>
     interpolate (blockWrapper (with_defaults opts)) = wrapper_tag opts"
  by (cases "blockWrapper opts") (simp_all add: with_defaults_def interpolate_def wrapper_tag_def)

lemma renderBlock_success:
  assumes "idx < length toks"
    and "engine (content (toks ! idx))
           ((with_defaults opts)\<lparr>throwOnError := Flag (resolve_throw opts env)\<rparr>) True = Inr rendered"
    and "blockWrapper opts \<noteq> Undefined"
  shows "plugin_renderBlock engine opts toks idx env =
     Inr (''<'' @ wrapper_tag opts @ '' class=\"katex-block\">'' @ [CHR 0x0A] @ rendered @ [CHR 0x0A]
          @ ''</'' @ wrapper_tag opts @ ''>'' @ [CHR 0x0A])"
  using renderBlock_engine_output [of idx toks engine opts env rendered] assms(1,2)
    wrapper_tag_interpolated [OF assms(3)]
  by simp

text \<open>
  Where the options hold a \<open>blockWrapper\<close> key with the value \<open>undefined\<close>, the key is
  copied over the default and the markup is written with the tag \<open>undefined\<close>.
\<close>

lemma renderBlock_undefined_wrapper:
  assumes "idx < length toks"
    and "engine (content (toks ! idx))
           ((with_defaults opts)\<lparr>throwOnError := Flag (resolve_throw opts env)\<rparr>) True = Inr rendered"
    and "blockWrapper opts = Undefined"
  shows "plugin_renderBlock engine opts toks idx env =
     Inr (''<undefined class=\"katex-block\">'' @ [CHR 0x0A] @ rendered @ [CHR 0x0A]
          @ ''</undefined>'' @ [CHR 0x0A])"
  using renderBlock_engine_output [of idx toks engine opts env rendered] assms
  by (simp add: with_defaults_def interpolate_def)

lemma renderInline_fallback:
  assumes "idx < length toks"
    and "engine (content (toks ! idx)) ((with_defaults opts)\<lparr>throwOnError := Flag False\<rparr>) False
           = Inl err"
    and "\<not> resolve_throw opts env"
  shows "plugin_renderInline engine opts toks idx env =
     (case errorColor opts of
        None \<Rightarrow> Inl TypeError
      | Some colour \<Rightarrow>
          Inr (''<span class=\"katex-error\" style=\"color:'' @ html_escaped colour
               @ ''\" title=\"'' @ html_escaped (description err) @ ''\">''
               @ html_escaped (content (toks ! idx)) @ ''</span>''))"
  using assms
  by (simp add: plugin_renderInline_def renderInline_def token_content_def Let_def
        resolve_throw_defaults escapeHtml_defined escapeHtml_undefined split: option.splits)
     (simp add: with_defaults_def escapeHtml_defined escapeHtml_undefined)

text \<open>
  With the resolved flag true, the inline render function raises the engine's error, with the
  token's content stored as the \<open>source\<close> of its diagnostics.
\<close>

lemma renderInline_escalates:
  assumes "idx < length toks"
    and "engine (content (toks ! idx)) ((with_defaults opts)\<lparr>throwOnError := Flag True\<rparr>) False
           = Inl err"
    and "resolve_throw opts env"
  shows "plugin_renderInline engine opts toks idx env =
           Inl (EngineError (err\<lparr>diagnostics := (diagnostics err)(''source'' \<mapsto> content (toks ! idx))\<rparr>))"
  using assms
  by (simp add: plugin_renderInline_def renderInline_def token_content_def Let_def
        resolve_throw_defaults with_source_def)

text \<open>
  Claim C6, as amended. For every block token whose content the engine renders successfully,
  and options whose \<open>blockWrapper\<close> is a string or is absent, the block render function
  returns exactly the string \<open><\<close> + wrapper tag + \<open> class="katex-block">\<close> + newline
  + the engine's output + newline + \<open></\<close> + wrapper tag + \<open>>\<close> + newline, where the
  wrapper tag is the configured string, and \<open>div\<close> when the options have no
  \<open>blockWrapper\<close>. The class is \<open>katex-block\<close>, not \<open>math-block\<close>. (Options that
  hold the key \<open>blockWrapper\<close> with the value \<open>undefined\<close> are left out of the
  statement.)
\<close>

theorem renderBlock_katex_block:
  assumes "idx < length toks"
    and "engine (content (toks ! idx))
           ((with_defaults opts)\<lparr>throwOnError := Flag (resolve_throw opts env)\<rparr>) True = Inr rendered"
    and "blockWrapper opts \<noteq> Undefined"
  shows "plugin_renderBlock engine opts toks idx env =
     Inr (''<'' @ wrapper_tag opts @ '' class=\"katex-block\">'' @ [CHR 0x0A] @ rendered @ [CHR 0x0A]
          @ ''</'' @ wrapper_tag opts @ ''>'' @ [CHR 0x0A])"
  using assms by (rule renderBlock_success)

text \<open>
  The theorem for the block \<open>E=mc^2\<close> and an engine that returns its input: with no
  configured wrapper the tag is \<open>div\<close>, with the wrapper \<open>section\<close> it is
  \<open>section\<close>.
\<close>

theorem renderBlock_katex_block_witness:
  "plugin_renderBlock echo_engine plain_options
     [content_token ''math_block'' (''E=mc^2'' @ [CHR 0x0A])] 0 () =
   Inr (''<div class=\"katex-block\">'' @ [CHR 0x0A] @ ''E=mc^2'' @ [CHR 0x0A] @ [CHR 0x0A]
        @ ''</div>'' @ [CHR 0x0A])
   \<and> plugin_renderBlock echo_engine (plain_options\<lparr>blockWrapper := Defined ''section''\<rparr>)
     [content_token ''math_block'' (''E=mc^2'' @ [CHR 0x0A])] 0 () =
   Inr (''<section class=\"katex-block\">'' @ [CHR 0x0A] @ ''E=mc^2'' @ [CHR 0x0A] @ [CHR 0x0A]
        @ ''</section>'' @ [CHR 0x0A])"
proof -
  have echo: "echo_engine (content ([content_token ''math_block'' (''E=mc^2'' @ [CHR 0x0A])] ! 0))
          ((with_defaults opts)\<lparr>throwOnError := Flag (resolve_throw opts ())\<rparr>)
          True = Inr (''E=mc^2'' @ [CHR 0x0A])" for opts
    by (simp add: echo_engine_def content_token_def)
  have absent: "blockWrapper plain_options \<noteq> Undefined"
    and given: "blockWrapper (plain_options\<lparr>blockWrapper := Defined ''section''\<rparr>) \<noteq> Undefined"
    by (simp_all add: plain_options_def)
  have "plugin_renderBlock echo_engine plain_options
     [content_token ''math_block'' (''E=mc^2'' @ [CHR 0x0A])] 0 () =
   Inr (''<div class=\"katex-block\">'' @ [CHR 0x0A] @ ''E=mc^2'' @ [CHR 0x0A] @ [CHR 0x0A]
        @ ''</div>'' @ [CHR 0x0A])"
    using renderBlock_katex_block
      [of 0 "[content_token ''math_block'' (''E=mc^2'' @ [CHR 0x0A])]" echo_engine plain_options
        "()" "''E=mc^2'' @ [CHR 0x0A]"] echo [of plain_options] absent
    by (simp add: wrapper_tag_def plain_options_def)
  moreover have "plugin_renderBlock echo_engine
       (plain_options\<lparr>blockWrapper := Defined ''section''\<rparr>)
     [content_token ''math_block'' (''E=mc^2'' @ [CHR 0x0A])] 0 () =
   Inr (''<section class=\"katex-block\">'' @ [CHR 0x0A] @ ''E=mc^2'' @ [CHR 0x0A] @ [CHR 0x0A]
        @ ''</section>'' @ [CHR 0x0A])"
    using renderBlock_katex_block
      [of 0 "[content_token ''math_block'' (''E=mc^2'' @ [CHR 0x0A])]" echo_engine
        "plain_options\<lparr>blockWrapper := Defined ''section''\<rparr>"
        "()" "''E=mc^2'' @ [CHR 0x0A]"]
      echo [of "plain_options\<lparr>blockWrapper := Defined ''section''\<rparr>"] given
    by (simp add: wrapper_tag_def plain_options_def)
  ultimately show ?thesis
    by simp
qed

text \<open>
  Counterexample to claim C6 as stated: for the same call the result is not the string with
  the class \<open>math-block\<close>.
\<close>

theorem renderBlock_not_math_block:
  "plugin_renderBlock echo_engine plain_options
     [content_token ''math_block'' (''E=mc^2'' @ [CHR 0x0A])] 0 () \<noteq>
   Inr (''<div class=\"math-block\">'' @ [CHR 0x0A] @ ''E=mc^2'' @ [CHR 0x0A] @ [CHR 0x0A]
        @ ''</div>'' @ [CHR 0x0A])"
  by (simp add: plugin_renderBlock_def renderBlock_def token_content_def content_token_def
        echo_engine_def interpolate_def with_defaults_def plain_options_def)

text \<open>
  Claim C7 says that whenever the engine raises, the inline render function raises if and only
  if the resolved \<open>throwOnError\<close> flag is true, and that with the flag false it returns
  the fallback markup. The code does so only when an error colour is configured. With no
  option configured at all and an engine that fails, the resolved flag is false and the render
  function still raises: a \<open>TypeError\<close>, from escaping the absent error colour.
\<close>

theorem renderInline_raises_without_error_colour:
  "resolve_throw plain_options () = False
   \<and> plugin_renderInline failing_engine plain_options [content_token ''math_inline'' ''x''] 0 ()
       = Inl TypeError"
  by (simp add: plugin_renderInline_def renderInline_def token_content_def content_token_def
        failing_engine_def resolve_throw_def with_defaults_def plain_options_def escapeHtml_def)

text \<open>
  Claim C9. In the fallback of the inline render function the configured error colour is
  itself HTML-escaped before it is put into the style attribute. So, when the engine fails and
  the resolved \<open>throwOnError\<close> flag is false, the fallback markup is returned only if an
  error colour is configured: it is the span with class \<open>katex-error\<close>, the escaped colour
  in the style, the escaped description of the error as title and the escaped content as
  body. When no error colour is configured the fallback itself throws a \<open>TypeError\<close>
  (the escaping is applied to \<open>undefined\<close>) and no markup is returned.
\<close>

theorem renderInline_error_colour_escaped:
  assumes "idx < length toks"
    and "engine (content (toks ! idx)) ((with_defaults opts)\<lparr>throwOnError := Flag False\<rparr>) False
           = Inl err"
    and "\<not> resolve_throw opts env"
  shows "plugin_renderInline engine opts toks idx env =
     (case errorColor opts of
        None \<Rightarrow> Inl TypeError
      | Some colour \<Rightarrow>
          Inr (''<span class=\"katex-error\" style=\"color:'' @ html_escaped colour
               @ ''\" title=\"'' @ html_escaped (description err) @ ''\">''
               @ html_escaped (content (toks ! idx)) @ ''</span>''))"
  using assms by (rule renderInline_fallback)

text \<open>
  The theorem for an engine that fails on \<open>x\<close> with the flag set to false: without an
  error colour the call throws, with the colour \<open>a<b\<close> it returns the markup with the
  colour escaped.
\<close>

theorem renderInline_error_colour_escaped_witness:
  "plugin_renderInline failing_engine (plain_options\<lparr>throwOnError := Flag False\<rparr>)
     [content_token ''math_inline'' ''x''] 0 () = Inl TypeError
   \<and> plugin_renderInline failing_engine
       (plain_options\<lparr>throwOnError := Flag False, errorColor := Some ''a<b''\<rparr>)
       [content_token ''math_inline'' ''x''] 0 () =
     Inr (''<span class=\"katex-error\" style=\"color:a&lt;b\" title=\"bad\">x</span>'')"
proof -
  have none: "plugin_renderInline failing_engine (plain_options\<lparr>throwOnError := Flag False\<rparr>)
     [content_token ''math_inline'' ''x''] 0 () = Inl TypeError"
    using renderInline_error_colour_escaped
      [of 0 "[content_token ''math_inline'' ''x'']" failing_engine
        "plain_options\<lparr>throwOnError := Flag False\<rparr>"
        "\<lparr>description = ''bad'', diagnostics = Map.empty\<rparr>" "()"]
    by (simp add: failing_engine_def resolve_throw_def plain_options_def)
  have some: "plugin_renderInline failing_engine
       (plain_options\<lparr>throwOnError := Flag False, errorColor := Some ''a<b''\<rparr>)
       [content_token ''math_inline'' ''x''] 0 () =
     Inr (''<span class=\"katex-error\" style=\"color:a&lt;b\" title=\"bad\">x</span>'')"
    using renderInline_error_colour_escaped
      [of 0 "[content_token ''math_inline'' ''x'']" failing_engine
        "plain_options\<lparr>throwOnError := Flag False, errorColor := Some ''a<b''\<rparr>"
        "\<lparr>description = ''bad'', diagnostics = Map.empty\<rparr>" "()"]
    by (simp add: failing_engine_def resolve_throw_def plain_options_def html_escaped_def
          content_token_def)
  from none some show ?thesis
    by simp
qed

section \<open>The legacy variant: claim C8\<close>
















end
